theory Spec2Isabelle
  imports Complex_Main "HOL-Library.Product_Lexorder" "HOL-Library.Multiset"
begin

section \<open>Data model\<close>

text \<open>
  The entities are owned by the surrounding simulation; \<^verbatim>\<open>ChildEnv\<close> and
  \<^verbatim>\<open>ChildPolicy\<close> only read the attributes listed in the comment of
  \<^verbatim>\<open>_get_obs\<close>. Python's \<^verbatim>\<open>int\<close> is \<^typ>\<open>int\<close>. Python's \<^verbatim>\<open>float\<close> is
  modelled by \<^typ>\<open>real\<close>: finite values with exact arithmetic, so rounding, infinities
  and NaN are outside the model.
\<close>

record customer =
  id_c :: int
  arrival_time :: real
  task :: int

record appointment =
  time :: real
  customer_id :: int
  task_id :: int
  service_time :: real

text \<open>
  \<^verbatim>\<open>avg_service_time\<close> is a plain \<^verbatim>\<open>dict{task_id: float}\<close>: a partial map, whose
  subscript \<^verbatim>\<open>d[k]\<close> raises \<^verbatim>\<open>KeyError\<close> on a key that is absent.
\<close>

record server =
  id_s :: int
  avg_service_time :: "int \<rightharpoonup> real"

text \<open>
  The part of the environment that the two classes touch. \<^verbatim>\<open>customer_waiting\<close> is a
  dict that is iterated (\<^verbatim>\<open>.values()\<close>, in insertion order) and looked up
  (\<^verbatim>\<open>.get\<close>): an association list. \<^verbatim>\<open>appointments\<close> is only looked up: a map.
\<close>

record env =
  customer_waiting :: "(int \<times> customer) list"
  appointments :: "int \<rightharpoonup> appointment"
  current_working_server :: server
  system_time :: real
  visible_customer_ids :: "int list"

datatype error = KeyError | IndexError | OverflowError

text \<open>
  The values an action can have at run time. \<^verbatim>\<open>isinstance(action, (int, np.integer))\<close>
  holds for Python and NumPy integers (\<open>PyInt\<close>) and for \<^verbatim>\<open>bool\<close>, a subclass of
  \<^verbatim>\<open>int\<close> with \<^verbatim>\<open>True == 1\<close> and \<^verbatim>\<open>False == 0\<close>; it fails for every other value.
\<close>

datatype action_value = PyInt int | PyBool bool | PyFloat real | PyStr string | PyNone

fun int_of_action :: "action_value \<Rightarrow> int option" where
  "int_of_action (PyInt i) = Some i"
| "int_of_action (PyBool b) = Some (if b then 1 else 0)"
| "int_of_action (PyFloat x) = None"
| "int_of_action (PyStr s) = None"
| "int_of_action PyNone = None"

definition MAX_VISIBLE_CUSTOMERS :: nat where
  "MAX_VISIBLE_CUSTOMERS = 20"

definition INVALID_CUSTOMER_ID :: int where
  "INVALID_CUSTOMER_ID = - 1"

section \<open>ChildEnv\<close>

subsection \<open>\<^verbatim>\<open>_get_candidate_customers\<close>\<close>

text \<open>
  The \<^verbatim>\<open>for\<close> loop over \<^verbatim>\<open>self.customer_waiting.values()\<close>, with the list
  \<^verbatim>\<open>candidates\<close> as accumulator. The subscript on \<^verbatim>\<open>avg_service_time\<close> raises
  \<^verbatim>\<open>KeyError\<close> at the first customer whose task is not a key.
\<close>

fun candidates_loop :: "server \<Rightarrow> customer list \<Rightarrow> customer list \<Rightarrow> error + customer list" where
  "candidates_loop srv [] candidates = Inr candidates"
| "candidates_loop srv (c # rest) candidates =
     (case avg_service_time srv (task c) of
        None \<Rightarrow> Inl KeyError
      | Some t \<Rightarrow>
          if t > 0 then candidates_loop srv rest (candidates @ [c])
          else candidates_loop srv rest candidates)"

text \<open>
  \<^verbatim>\<open>candidates.sort(key=lambda c: (c.arrival_time, c.id))\<close>: Python's sort is stable
  and compares the key tuples lexicographically, as \<^const>\<open>sort_key\<close> does with the
  lexicographic order on pairs.
\<close>

definition get_candidate_customers :: "env \<Rightarrow> error + customer list" where
  "get_candidate_customers e =
     (case candidates_loop (current_working_server e) (map snd (customer_waiting e)) [] of
        Inl err \<Rightarrow> Inl err
      | Inr candidates \<Rightarrow> Inr (sort_key (\<lambda>c. (arrival_time c, id_c c)) candidates))"

subsection \<open>\<^verbatim>\<open>_get_obs\<close>\<close>

text \<open>
  \<^verbatim>\<open>np.array(obs, dtype=np.int32)\<close>: NumPy 2 raises \<^verbatim>\<open>OverflowError\<close> for a Python
  integer outside the range of \<^verbatim>\<open>int32\<close> (NumPy 1 wrapped it around instead); inside
  the range the array holds the given integers.
\<close>

definition np_array_int32 :: "int list \<Rightarrow> error + int list" where
  "np_array_int32 xs =
     (if list_all (\<lambda>x. - (2 ^ 31) \<le> x \<and> x < 2 ^ 31) xs then Inr xs else Inl OverflowError)"

text \<open>
  Lines 75 to 80 of \<^verbatim>\<open>_get_obs\<close>, from the candidate list on: the visible-slot table
  is stored first, so it is part of the state also when the conversion raises.
\<close>

definition encode_candidates :: "env \<Rightarrow> customer list \<Rightarrow> env \<times> (error + int list)" where
  "encode_candidates e candidates =
     (let visible = map id_c (take MAX_VISIBLE_CUSTOMERS candidates);
          e' = e\<lparr>visible_customer_ids := visible\<rparr>;
          obs = visible @ replicate (MAX_VISIBLE_CUSTOMERS - length visible) INVALID_CUSTOMER_ID
      in (e', np_array_int32 obs))"

text \<open>
  \<^verbatim>\<open>_get_obs\<close>: the result of \<^verbatim>\<open>self._get_state()\<close> is deleted unread, so the
  observation depends on the candidates alone. A \<^verbatim>\<open>KeyError\<close> of the selector
  leaves the state as it was.
\<close>

definition get_obs :: "env \<Rightarrow> env \<times> (error + int list)" where
  "get_obs e =
     (case get_candidate_customers e of
        Inl err \<Rightarrow> (e, Inl err)
      | Inr candidates \<Rightarrow> encode_candidates e candidates)"

subsection \<open>\<^verbatim>\<open>_get_customer_from_action\<close>\<close>

text \<open>
  \<open>Inr None\<close> is the return value \<^verbatim>\<open>None\<close>, "no customer". The subscript on the
  visible-slot table is in range after the three guards; the subscript on
  \<^verbatim>\<open>avg_service_time\<close> raises \<^verbatim>\<open>KeyError\<close> on an absent task.
\<close>

definition get_customer_from_action :: "env \<Rightarrow> action_value \<Rightarrow> error + customer option" where
  "get_customer_from_action e action =
     (case int_of_action action of
        None \<Rightarrow> Inr None
      | Some a \<Rightarrow>
          if a < 0 \<or> a \<ge> int MAX_VISIBLE_CUSTOMERS then Inr None
          else if a \<ge> int (length (visible_customer_ids e)) then Inr None
          else
            (let cust_id = visible_customer_ids e ! nat a in
             case map_of (customer_waiting e) cust_id of
               None \<Rightarrow> Inr None
             | Some c \<Rightarrow>
                 (case avg_service_time (current_working_server e) (task c) of
                    None \<Rightarrow> Inl KeyError
                  | Some t \<Rightarrow> if t \<le> 0 then Inr None else Inr (Some c))))"

subsection \<open>Rewards\<close>

definition get_invalid_action_reward :: real where
  "get_invalid_action_reward = - 10"

text \<open>
  \<^verbatim>\<open>_get_valid_reward\<close>: the variable \<^verbatim>\<open>reward\<close> is updated twice by \<^verbatim>\<open>+=\<close>, the
  second time only when \<^verbatim>\<open>self.appointments.get(customer.id)\<close> is not \<^verbatim>\<open>None\<close>.
\<close>

definition get_valid_reward :: "env \<Rightarrow> customer \<Rightarrow> real" where
  "get_valid_reward e c =
     (let waiting_time = system_time e - arrival_time c;
          reward = 2;
          reward = reward + min (waiting_time / 15) 6
      in case appointments e (id_c c) of
           None \<Rightarrow> reward
         | Some appt \<Rightarrow>
             (let delay = \<bar>system_time e - time appt\<bar>
              in reward + max 0 (4 - delay / 5)))"

subsection \<open>\<^verbatim>\<open>action_masks\<close>\<close>

definition get_hold_action_number :: nat where
  "get_hold_action_number = MAX_VISIBLE_CUSTOMERS"

text \<open>
  The mask starts as \<^verbatim>\<open>[False] * 21\<close>; the loop over \<^verbatim>\<open>range(valid_slots)\<close> and the
  last assignment write inside the list, so no subscript can fail.
\<close>

definition action_masks :: "env \<Rightarrow> bool list" where
  "action_masks e =
     (let msk = replicate (MAX_VISIBLE_CUSTOMERS + 1) False;
          valid_slots = min (length (visible_customer_ids e)) MAX_VISIBLE_CUSTOMERS;
          msk = fold (\<lambda>idx m. m[idx := True]) [0..<valid_slots] msk
      in msk[get_hold_action_number := True])"

text \<open>Python's \<^verbatim>\<open>sum\<close> over a list of booleans counts \<^verbatim>\<open>True\<close> as 1.\<close>

definition sum_mask :: "bool list \<Rightarrow> int" where
  "sum_mask msk = (\<Sum>b\<leftarrow>msk. if b then 1 else 0)"

section \<open>ChildPolicy\<close>

text \<open>
  The dictionary \<^verbatim>\<open>info\<close>, read by \<^verbatim>\<open>info.get\<close> with a default: a key can be
  absent. The action mask is a list of booleans, as \<^verbatim>\<open>action_masks\<close> builds it.
\<close>

record info =
  action_mask :: "bool list option"
  info_system_time :: "real option"

text \<open>
  Lines 36 to 50 of \<^verbatim>\<open>_predict\<close>: the score of the customer found under
  \<^verbatim>\<open>customer_id\<close>. The tie-breaker uses the attribute \<^verbatim>\<open>customer.id\<close>, the
  appointment is looked up under \<^verbatim>\<open>customer_id\<close>. The literal \<^verbatim>\<open>1e-6\<close> is the
  real number one millionth.
\<close>

definition score_customer :: "real \<Rightarrow> (int \<rightharpoonup> appointment) \<Rightarrow> int \<Rightarrow> customer \<Rightarrow> real" where
  "score_customer sim_time appts cust_id c =
     (let waiting_time = sim_time - arrival_time c;
          score = waiting_time;
          score =
            (case appts cust_id of
               None \<Rightarrow> score
             | Some appt \<Rightarrow>
                 (let appointment_delta = \<bar>sim_time - time appt\<bar>;
                      score = score + max 0 (120 - 4 * appointment_delta)
                  in if sim_time < time appt - 30
                     then score - (time appt - sim_time - 30) * 2
                     else score))
      in score - of_int (id_c c) * (1 / 1000000))"

text \<open>
  \<^verbatim>\<open>best_score\<close> starts as \<^verbatim>\<open>-float("inf")\<close>, here \<open>None\<close>: every score is greater.
\<close>

fun exceeds :: "real \<Rightarrow> real option \<Rightarrow> bool" where
  "exceeds score None = True"
| "exceeds score (Some best) = (score > best)"

text \<open>
  Lines 28 to 34: the customer that an action resolves to through the observation,
  \<open>None\<close> where the loop goes on to the next action (\<^verbatim>\<open>continue\<close>).
\<close>

definition resolve_customer :: "(int \<times> customer) list \<Rightarrow> int list \<Rightarrow> nat \<Rightarrow> customer option" where
  "resolve_customer waiting obs action =
     (let cust_id = obs ! action in
      if cust_id < 0 then None else map_of waiting cust_id)"

text \<open>
  The loop over \<^verbatim>\<open>service_actions\<close>. The observation is an array: a subscript at or
  beyond its length raises \<^verbatim>\<open>IndexError\<close> (the actions are positions of the mask, so
  never negative).
\<close>

fun predict_loop ::
  "real \<Rightarrow> (int \<times> customer) list \<Rightarrow> (int \<rightharpoonup> appointment) \<Rightarrow> int list \<Rightarrow>
   nat list \<Rightarrow> nat \<Rightarrow> real option \<Rightarrow> error + nat" where
  "predict_loop sim_time waiting appts obs [] best_action best_score = Inr best_action"
| "predict_loop sim_time waiting appts obs (action # rest) best_action best_score =
     (if action \<ge> length obs then Inl IndexError
      else
        (case resolve_customer waiting obs action of
           None \<Rightarrow> predict_loop sim_time waiting appts obs rest best_action best_score
         | Some c \<Rightarrow>
             (let score = score_customer sim_time appts (obs ! action) c in
              if exceeds score best_score
              then predict_loop sim_time waiting appts obs rest action (Some score)
              else predict_loop sim_time waiting appts obs rest best_action best_score)))"

text \<open>
  Lines 11 to 15: \<^verbatim>\<open>hold_action\<close> is the last position of the mask, and
  \<^verbatim>\<open>service_actions\<close> are the positions that hold \<^verbatim>\<open>True\<close>, the last one left out.
\<close>

definition service_actions :: "bool list \<Rightarrow> nat list" where
  "service_actions am =
     (let hold_action = length am - 1;
          valid_actions = filter (\<lambda>i. am ! i) [0..<length am]
      in filter (\<lambda>a. a \<noteq> hold_action) valid_actions)"

text \<open>
  \<^verbatim>\<open>_predict\<close>. \<^verbatim>\<open>self.env.unwrapped\<close> is the environment, read for
  \<^verbatim>\<open>customer_waiting\<close> and \<^verbatim>\<open>appointments\<close>; the mask and the time come from
  \<^verbatim>\<open>info\<close>, with the defaults \<^verbatim>\<open>[]\<close> and \<^verbatim>\<open>0.0\<close>.
\<close>

definition predict :: "env \<Rightarrow> int list \<Rightarrow> info \<Rightarrow> error + nat" where
  "predict e obs nfo =
     (let am = (case action_mask nfo of None \<Rightarrow> [] | Some m \<Rightarrow> m) in
      if am = [] then Inr 0
      else
        (let hold_action = length am - 1 in
         if service_actions am = [] then Inr hold_action
         else
           (let sim_time = (case info_system_time nfo of None \<Rightarrow> 0 | Some t \<Rightarrow> t)
            in predict_loop sim_time (customer_waiting e) (appointments e) obs
                 (service_actions am) hold_action None)))"

text \<open>
  The score that the loop body computes for an action: that of the customer the action
  resolves to, \<open>None\<close> for an action that the loop skips.
\<close>

definition action_score ::
  "real \<Rightarrow> (int \<times> customer) list \<Rightarrow> (int \<rightharpoonup> appointment) \<Rightarrow> int list \<Rightarrow> nat \<Rightarrow> real option" where
  "action_score sim_time waiting appts obs action =
     map_option (score_customer sim_time appts (obs ! action)) (resolve_customer waiting obs action)"

section \<open>Example states\<close>

text \<open>
  Customers A and B are served by the example server (task 0); the server holds the
  value 0 for the task of C, and has no entry for the task of D.
\<close>

definition cust_A :: customer where
  "cust_A = \<lparr>id_c = 1, arrival_time = 0, task = 0\<rparr>"

definition cust_B :: customer where
  "cust_B = \<lparr>id_c = 2, arrival_time = 10, task = 0\<rparr>"

definition cust_C :: customer where
  "cust_C = \<lparr>id_c = 3, arrival_time = 0, task = 7\<rparr>"

definition cust_D :: customer where
  "cust_D = \<lparr>id_c = 4, arrival_time = 5, task = 9\<rparr>"

definition srv_ex :: server where
  "srv_ex = \<lparr>id_s = 0, avg_service_time = [0 \<mapsto> 5, 7 \<mapsto> 0]\<rparr>"

definition env_ex :: env where
  "env_ex = \<lparr>customer_waiting = [(2, cust_B), (3, cust_C), (1, cust_A)],
              appointments = Map.empty,
              current_working_server = srv_ex,
              system_time = 30,
              visible_customer_ids = [1, 2]\<rparr>"

definition appt_A :: appointment where
  "appt_A = \<lparr>time = 30, customer_id = 1, task_id = 0, service_time = 5\<rparr>"

definition env_appt :: env where
  "env_appt = env_ex\<lparr>appointments := [1 \<mapsto> appt_A]\<rparr>"

definition env_missing :: env where
  "env_missing = env_ex\<lparr>customer_waiting := [(2, cust_B), (4, cust_D), (1, cust_A)],
                         visible_customer_ids := [1, 4, 2]\<rparr>"

definition env_nokey :: env where
  "env_nokey = env_ex\<lparr>current_working_server := \<lparr>id_s = 1, avg_service_time = Map.empty\<rparr>\<rparr>"

text \<open>
  Customer A at two times, 30 and 60, with an appointment at 45: equally far from the
  appointment at both times.
\<close>

definition appt_mid :: appointment where
  "appt_mid = \<lparr>time = 45, customer_id = 1, task_id = 0, service_time = 5\<rparr>"

definition env_early :: env where
  "env_early = env_ex\<lparr>appointments := [1 \<mapsto> appt_mid]\<rparr>"

definition env_late :: env where
  "env_late = env_early\<lparr>system_time := 60\<rparr>"

text \<open>
  The example of the heuristic: at time 50, A (arrived at 0, no appointment) is in slot 0
  and B (arrived at 10, appointment at 50) in slot 1.
\<close>

definition appt_B :: appointment where
  "appt_B = \<lparr>time = 50, customer_id = 2, task_id = 0, service_time = 5\<rparr>"

definition env_pol :: env where
  "env_pol = \<lparr>customer_waiting = [(1, cust_A), (2, cust_B)],
               appointments = [2 \<mapsto> appt_B],
               current_working_server = srv_ex,
               system_time = 50,
               visible_customer_ids = [1, 2]\<rparr>"

definition obs_ex :: "int list" where
  "obs_ex = [1, 2] @ replicate 18 (- 1)"

definition mask_two :: "bool list" where
  "mask_two = [True, True] @ replicate 18 False @ [True]"

definition mask_hold :: "bool list" where
  "mask_hold = replicate 20 False @ [True]"

definition info_pol :: info where
  "info_pol = \<lparr>action_mask = Some mask_two, info_system_time = Some 50\<rparr>"

definition info_hold :: info where
  "info_hold = \<lparr>action_mask = Some mask_hold, info_system_time = Some 50\<rparr>"

definition info_empty :: info where
  "info_empty = \<lparr>action_mask = Some [], info_system_time = Some 50\<rparr>"

section \<open>Auxiliary facts\<close>

lemma get_valid_reward_closed:
  "get_valid_reward e c =
     2 + min ((system_time e - arrival_time c) / 15) 6 +
     (case appointments e (id_c c) of
        None \<Rightarrow> 0
      | Some appt \<Rightarrow> max 0 (4 - \<bar>system_time e - time appt\<bar> / 5))"
  by (simp add: get_valid_reward_def Let_def split: option.split)

lemma fold_set_True:
  "k \<le> n \<Longrightarrow>
   fold (\<lambda>idx m. m[idx := True]) [0..<k] (replicate n False) =
   replicate k True @ replicate (n - k) False"
proof (induction k)
  case 0
  then show ?case by simp
next
  case (Suc k)
  then obtain d where d: "n - k = Suc d" "n - Suc k = d"
    by (cases "n - k") auto
  from Suc have "fold (\<lambda>idx m. m[idx := True]) [0..<Suc k] (replicate n False) =
      (replicate k True @ replicate (n - k) False)[k := True]"
    by simp
  also have "\<dots> = replicate k True @ (replicate (Suc d) False)[0 := True]"
    by (simp add: list_update_append d)
  also have "\<dots> = replicate (Suc k) True @ replicate (n - Suc k) False"
    by (simp add: d replicate_app_Cons_same)
  finally show ?case .
qed

lemma action_masks_eq:
  "action_masks e =
     replicate (min (length (visible_customer_ids e)) MAX_VISIBLE_CUSTOMERS) True @
     replicate (MAX_VISIBLE_CUSTOMERS - min (length (visible_customer_ids e)) MAX_VISIBLE_CUSTOMERS) False @
     [True]"
proof -
  let ?k = "min (length (visible_customer_ids e)) MAX_VISIBLE_CUSTOMERS"
  let ?n = "MAX_VISIBLE_CUSTOMERS"
  have "fold (\<lambda>idx m. m[idx := True]) [0..<?k] (replicate (?n + 1) False) =
      replicate ?k True @ replicate (?n + 1 - ?k) False"
    by (rule fold_set_True) simp
  then have "action_masks e = (replicate ?k True @ replicate (?n + 1 - ?k) False)[?n := True]"
    by (simp only: action_masks_def Let_def get_hold_action_number_def)
  also have "?n + 1 - ?k = Suc (?n - ?k)" by simp
  also have "(replicate ?k True @ replicate (Suc (?n - ?k)) False)[?n := True] =
     replicate ?k True @ (replicate (?n - ?k) False @ [False])[?n - ?k := True]"
    by (simp add: list_update_append replicate_append_same)
  also have "\<dots> = replicate ?k True @ replicate (?n - ?k) False @ [True]"
    by (simp add: list_update_append)
  finally show ?thesis .
qed

lemma sum_mask_append: "sum_mask (xs @ ys) = sum_mask xs + sum_mask ys"
  by (simp add: sum_mask_def)

lemma sum_mask_replicate:
  "sum_mask (replicate k True) = int k" "sum_mask (replicate k False) = 0"
  by (induction k) (simp_all add: sum_mask_def)

lemma sum_mask_single: "sum_mask [True] = 1"
  by (simp add: sum_mask_def)

lemma candidates_loop_Inr:
  "\<forall>c \<in> set cs. avg_service_time srv (task c) \<noteq> None \<Longrightarrow>
   candidates_loop srv cs acc =
     Inr (acc @ filter (\<lambda>c. \<exists>t. avg_service_time srv (task c) = Some t \<and> 0 < t) cs)"
  by (induction cs arbitrary: acc) auto

lemma candidates_loop_Inl:
  "\<exists>c \<in> set cs. avg_service_time srv (task c) = None \<Longrightarrow>
   candidates_loop srv cs acc = Inl KeyError"
  by (induction cs arbitrary: acc) (auto split: option.split)

lemma get_candidate_customers_Inr:
  assumes "\<forall>c \<in> set (map snd (customer_waiting e)).
             avg_service_time (current_working_server e) (task c) \<noteq> None"
  shows "get_candidate_customers e =
     Inr (sort_key (\<lambda>c. (arrival_time c, id_c c))
            (filter (\<lambda>c. \<exists>t. avg_service_time (current_working_server e) (task c) = Some t \<and> 0 < t)
               (map snd (customer_waiting e))))"
  unfolding get_candidate_customers_def candidates_loop_Inr [OF assms] by simp

lemma get_candidate_customers_Inl:
  assumes "\<exists>c \<in> set (map snd (customer_waiting e)).
             avg_service_time (current_working_server e) (task c) = None"
  shows "get_candidate_customers e = Inl KeyError"
  unfolding get_candidate_customers_def candidates_loop_Inl [OF assms] by simp

lemma sorted_by_arrival_then_id:
  "sorted_wrt (\<lambda>a b. arrival_time a < arrival_time b \<or>
                     (arrival_time a = arrival_time b \<and> id_c a \<le> id_c b))
     (sort_key (\<lambda>c. (arrival_time c, id_c c)) cs)"
proof -
  have "sorted (map (\<lambda>c. (arrival_time c, id_c c)) (sort_key (\<lambda>c. (arrival_time c, id_c c)) cs))"
    by (rule sorted_sort_key)
  then have "sorted_wrt (\<lambda>a b. (arrival_time a, id_c a) \<le> (arrival_time b, id_c b))
     (sort_key (\<lambda>c. (arrival_time c, id_c c)) cs)"
    by (simp add: sorted_map)
  then show ?thesis
    by (rule sorted_wrt_mono_rel [rotated]) (auto simp add: less_eq_prod_def)
qed

lemma np_array_int32_Inr:
  "\<forall>x \<in> set xs. - (2 ^ 31) \<le> x \<and> x < 2 ^ 31 \<Longrightarrow> np_array_int32 xs = Inr xs"
  by (simp add: np_array_int32_def list_all_iff)

lemma get_candidate_customers_cases:
  "get_candidate_customers e =
     (if \<exists>c \<in> set (map snd (customer_waiting e)).
           avg_service_time (current_working_server e) (task c) = None
      then Inl KeyError
      else Inr (sort_key (\<lambda>c. (arrival_time c, id_c c))
            (filter (\<lambda>c. \<exists>t. avg_service_time (current_working_server e) (task c) = Some t \<and> 0 < t)
               (map snd (customer_waiting e)))))"
proof (cases "\<exists>c \<in> set (map snd (customer_waiting e)).
         avg_service_time (current_working_server e) (task c) = None")
  case True
  from get_candidate_customers_Inl [OF True] True show ?thesis by simp
next
  case False
  then have "\<forall>c \<in> set (map snd (customer_waiting e)).
         avg_service_time (current_working_server e) (task c) \<noteq> None" by simp
  from get_candidate_customers_Inr [OF this] False show ?thesis by simp
qed

lemma exceeds_trans: "exceeds s bs \<Longrightarrow> s < s' \<Longrightarrow> exceeds s' bs"
  by (cases bs) auto

lemma not_exceeds_le: "\<not> exceeds s bs \<Longrightarrow> exceeds s' bs \<Longrightarrow> s < s'"
  by (cases bs) auto

lemma predict_loop_spec:
  assumes "\<forall>a \<in> set acts. a < length obs" and "sorted_wrt (<) acts"
  shows "\<exists>r. predict_loop st w ap obs acts ba bs = Inr r \<and>
     ((r = ba \<and> (\<forall>a \<in> set acts. \<forall>s. action_score st w ap obs a = Some s \<longrightarrow> \<not> exceeds s bs))
      \<or> (r \<in> set acts \<and> (\<exists>s. action_score st w ap obs r = Some s \<and> exceeds s bs \<and>
            (\<forall>a \<in> set acts. \<forall>s'. action_score st w ap obs a = Some s' \<longrightarrow>
                s' \<le> s \<and> (a < r \<longrightarrow> s' < s)))))"
  using assms
proof (induction acts arbitrary: ba bs)
  case Nil
  then show ?case by simp
next
  case (Cons a acts)
  from Cons.prems have inr: "\<forall>x \<in> set acts. x < length obs" and srt: "sorted_wrt (<) acts"
    and a: "a < length obs" and lt: "\<forall>x \<in> set acts. a < x"
    by auto
  show ?case
  proof (cases "resolve_customer w obs a")
    case None
    then have sc: "action_score st w ap obs a = None" by (simp add: action_score_def)
    from Cons.IH [OF inr srt, of ba bs] obtain r where
      r: "predict_loop st w ap obs acts ba bs = Inr r"
      and d: "(r = ba \<and> (\<forall>a \<in> set acts. \<forall>s. action_score st w ap obs a = Some s \<longrightarrow> \<not> exceeds s bs))
      \<or> (r \<in> set acts \<and> (\<exists>s. action_score st w ap obs r = Some s \<and> exceeds s bs \<and>
            (\<forall>a \<in> set acts. \<forall>s'. action_score st w ap obs a = Some s' \<longrightarrow>
                s' \<le> s \<and> (a < r \<longrightarrow> s' < s))))"
      by blast
    from r a None have "predict_loop st w ap obs (a # acts) ba bs = Inr r" by simp
    with d sc show ?thesis by auto
  next
    case (Some c)
    define s where "s = score_customer st ap (obs ! a) c"
    from Some have sc: "action_score st w ap obs a = Some s" by (simp add: action_score_def s_def)
    show ?thesis
    proof (cases "exceeds s bs")
      case True
      from Cons.IH [OF inr srt, of a "Some s"] obtain r where
        r: "predict_loop st w ap obs acts a (Some s) = Inr r"
        and d: "(r = a \<and> (\<forall>x \<in> set acts. \<forall>s'. action_score st w ap obs x = Some s' \<longrightarrow> \<not> exceeds s' (Some s)))
        \<or> (r \<in> set acts \<and> (\<exists>sr. action_score st w ap obs r = Some sr \<and> exceeds sr (Some s) \<and>
            (\<forall>x \<in> set acts. \<forall>s'. action_score st w ap obs x = Some s' \<longrightarrow>
                s' \<le> sr \<and> (x < r \<longrightarrow> s' < sr))))"
        by blast
      from r a Some True have p: "predict_loop st w ap obs (a # acts) ba bs = Inr r"
        by (simp add: s_def Let_def)
      from d show ?thesis
      proof
        assume "r = a \<and> (\<forall>x \<in> set acts. \<forall>s'. action_score st w ap obs x = Some s' \<longrightarrow> \<not> exceeds s' (Some s))"
        with p sc True lt show ?thesis by (auto simp add: not_less)
      next
        assume "r \<in> set acts \<and> (\<exists>sr. action_score st w ap obs r = Some sr \<and> exceeds sr (Some s) \<and>
            (\<forall>x \<in> set acts. \<forall>s'. action_score st w ap obs x = Some s' \<longrightarrow>
                s' \<le> sr \<and> (x < r \<longrightarrow> s' < sr)))"
        then obtain sr where ra: "r \<in> set acts" and sr: "action_score st w ap obs r = Some sr"
          and gt: "s < sr"
          and mx: "\<forall>x \<in> set acts. \<forall>s'. action_score st w ap obs x = Some s' \<longrightarrow>
                s' \<le> sr \<and> (x < r \<longrightarrow> s' < sr)"
          by auto
        from exceeds_trans [OF True gt] have "exceeds sr bs" .
        with p ra sr gt mx sc show ?thesis by auto
      qed
    next
      case False
      from Cons.IH [OF inr srt, of ba bs] obtain r where
        r: "predict_loop st w ap obs acts ba bs = Inr r"
        and d: "(r = ba \<and> (\<forall>a \<in> set acts. \<forall>s. action_score st w ap obs a = Some s \<longrightarrow> \<not> exceeds s bs))
        \<or> (r \<in> set acts \<and> (\<exists>s. action_score st w ap obs r = Some s \<and> exceeds s bs \<and>
            (\<forall>a \<in> set acts. \<forall>s'. action_score st w ap obs a = Some s' \<longrightarrow>
                s' \<le> s \<and> (a < r \<longrightarrow> s' < s))))"
        by blast
      from r a Some False have p: "predict_loop st w ap obs (a # acts) ba bs = Inr r"
        by (simp add: s_def Let_def)
      from d show ?thesis
      proof
        assume "r = ba \<and> (\<forall>a \<in> set acts. \<forall>s. action_score st w ap obs a = Some s \<longrightarrow> \<not> exceeds s bs)"
        with p sc False show ?thesis by auto
      next
        assume "r \<in> set acts \<and> (\<exists>s. action_score st w ap obs r = Some s \<and> exceeds s bs \<and>
            (\<forall>a \<in> set acts. \<forall>s'. action_score st w ap obs a = Some s' \<longrightarrow>
                s' \<le> s \<and> (a < r \<longrightarrow> s' < s)))"
        then obtain sr where ra: "r \<in> set acts" and sr: "action_score st w ap obs r = Some sr"
          and ex: "exceeds sr bs"
          and mx: "\<forall>x \<in> set acts. \<forall>s'. action_score st w ap obs x = Some s' \<longrightarrow>
                s' \<le> sr \<and> (x < r \<longrightarrow> s' < sr)"
          by auto
        from not_exceeds_le [OF False ex] have "s < sr" .
        with p ra sr ex mx sc show ?thesis by auto
      qed
    qed
  qed
qed

lemma service_actions_sorted: "sorted_wrt (<) (service_actions am)"
  by (simp add: service_actions_def Let_def sorted_wrt_filter)

lemma set_service_actions:
  "set (service_actions am) = {i. i < length am - 1 \<and> am ! i}"
  by (auto simp add: service_actions_def Let_def)

lemma service_actions_empty_iff:
  "service_actions am = [] \<longleftrightarrow> (\<forall>i < length am - 1. \<not> am ! i)"
proof -
  have "service_actions am = [] \<longleftrightarrow> set (service_actions am) = {}" by simp
  also have "\<dots> \<longleftrightarrow> (\<forall>i < length am - 1. \<not> am ! i)"
    unfolding set_service_actions by auto
  finally show ?thesis .
qed

lemma score_customer_closed:
  "score_customer st ap k c =
     (st - arrival_time c)
     + (case ap k of
          None \<Rightarrow> 0
        | Some appt \<Rightarrow>
            max 0 (120 - 4 * \<bar>st - time appt\<bar>)
            - (if st < time appt - 30 then 2 * (time appt - st - 30) else 0))
     - of_int (id_c c) * (1 / 1000000)"
  by (simp add: score_customer_def Let_def split: option.split)

lemma action_score_None_iff:
  "action_score st w ap obs a = None \<longleftrightarrow> obs ! a < 0 \<or> map_of w (obs ! a) = None"
  by (simp add: action_score_def resolve_customer_def Let_def)

lemma service_actions_mask_two: "service_actions mask_two = [0, 1]"
  unfolding mask_two_def service_actions_def by code_simp

lemma predict_max:
  assumes am: "action_mask nfo = Some am" and ne: "service_actions am \<noteq> []"
    and inr: "\<forall>a \<in> set (service_actions am). a < length obs"
    and st: "st = (case info_system_time nfo of None \<Rightarrow> 0 | Some t \<Rightarrow> t)"
  shows "\<exists>r. predict e obs nfo = Inr r \<and>
     ((\<forall>a \<in> set (service_actions am).
          action_score st (customer_waiting e) (appointments e) obs a = None)
        \<longrightarrow> r = length am - 1) \<and>
     ((\<exists>a \<in> set (service_actions am).
          action_score st (customer_waiting e) (appointments e) obs a \<noteq> None)
        \<longrightarrow> r \<in> set (service_actions am) \<and>
        (\<exists>s. action_score st (customer_waiting e) (appointments e) obs r = Some s \<and>
          (\<forall>a \<in> set (service_actions am). \<forall>s'.
             action_score st (customer_waiting e) (appointments e) obs a = Some s'
             \<longrightarrow> s' \<le> s \<and> (a < r \<longrightarrow> s' < s))))"
proof -
  from ne have "am \<noteq> []" by (auto simp add: service_actions_def)
  with am ne st have p: "predict e obs nfo =
      predict_loop st (customer_waiting e) (appointments e) obs (service_actions am) (length am - 1) None"
    by (simp add: predict_def Let_def)
  from predict_loop_spec [OF inr service_actions_sorted, of st "customer_waiting e" "appointments e" "length am - 1" None]
  obtain r where r: "predict_loop st (customer_waiting e) (appointments e) obs (service_actions am) (length am - 1) None = Inr r"
    and d: "(r = length am - 1 \<and> (\<forall>a \<in> set (service_actions am). \<forall>s. action_score st (customer_waiting e) (appointments e) obs a = Some s \<longrightarrow> \<not> exceeds s None))
      \<or> (r \<in> set (service_actions am) \<and> (\<exists>s. action_score st (customer_waiting e) (appointments e) obs r = Some s \<and> exceeds s None \<and>
            (\<forall>a \<in> set (service_actions am). \<forall>s'. action_score st (customer_waiting e) (appointments e) obs a = Some s' \<longrightarrow>
                s' \<le> s \<and> (a < r \<longrightarrow> s' < s))))"
    by blast
  from p r have pr: "predict e obs nfo = Inr r" by simp
  from d show ?thesis
  proof
    assume "r = length am - 1 \<and> (\<forall>a \<in> set (service_actions am). \<forall>s. action_score st (customer_waiting e) (appointments e) obs a = Some s \<longrightarrow> \<not> exceeds s None)"
    then have "r = length am - 1" and "\<forall>a \<in> set (service_actions am). action_score st (customer_waiting e) (appointments e) obs a = None"
      by auto
    with pr show ?thesis by auto
  next
    assume h: "r \<in> set (service_actions am) \<and> (\<exists>s. action_score st (customer_waiting e) (appointments e) obs r = Some s \<and> exceeds s None \<and>
            (\<forall>a \<in> set (service_actions am). \<forall>s'. action_score st (customer_waiting e) (appointments e) obs a = Some s' \<longrightarrow>
                s' \<le> s \<and> (a < r \<longrightarrow> s' < s)))"
    then obtain s where rs: "r \<in> set (service_actions am)"
      and s: "action_score st (customer_waiting e) (appointments e) obs r = Some s"
      and mx: "\<forall>a \<in> set (service_actions am). \<forall>s'. action_score st (customer_waiting e) (appointments e) obs a = Some s' \<longrightarrow>
                s' \<le> s \<and> (a < r \<longrightarrow> s' < s)"
      by blast
    from rs s have "\<not> (\<forall>a \<in> set (service_actions am). action_score st (customer_waiting e) (appointments e) obs a = None)"
      by auto
    with pr rs s mx show ?thesis by blast
  qed
qed

lemma predict_example:
  assumes ra: "0 \<le> a" "a \<le> 10000" and rb: "0 \<le> b" "b \<le> 10000"
    and A: "map_of (customer_waiting e) a = Some A" "id_c A = a" "arrival_time A = 0"
           "appointments e a = None"
    and B: "map_of (customer_waiting e) b = Some B" "id_c B = b" "arrival_time B = 10"
           "appointments e b = Some apptB" "time apptB = 50"
    and nfo: "info_system_time nfo = Some 50" "action_mask nfo = Some mask_two"
    and obs: "obs = [a, b] @ replicate 18 (- 1)"
  shows "predict e obs nfo = Inr 1"
proof -
  have sA: "score_customer 50 (appointments e) a A = 50 - of_int a * (1 / 1000000)"
    using A by (simp add: score_customer_closed)
  have sB: "score_customer 50 (appointments e) b B = 160 - of_int b * (1 / 1000000)"
    using B by (simp add: score_customer_closed)
  have "(of_int b :: real) \<le> 10000" "(0::real) \<le> of_int a" using ra rb by simp_all
  then have lt: "score_customer 50 (appointments e) a A < score_customer 50 (appointments e) b B"
    unfolding sA sB by simp
  have rA: "resolve_customer (customer_waiting e) obs 0 = Some A"
    using ra A by (simp add: resolve_customer_def obs)
  have rB: "resolve_customer (customer_waiting e) obs (Suc 0) = Some B"
    using rb B by (simp add: resolve_customer_def obs)
  have o: "obs ! 0 = a" "obs ! Suc 0 = b" "length obs = 20" by (simp_all add: obs)
  have "predict e obs nfo =
      predict_loop 50 (customer_waiting e) (appointments e) obs [0, Suc 0] 20 None"
    using nfo by (simp add: predict_def service_actions_mask_two) (simp add: mask_two_def)
  also have "\<dots> = Inr 1"
    using lt by (simp add: rA rB o Let_def)
  finally show ?thesis .
qed

lemma encode_candidates_invariant:
  "length (visible_customer_ids (fst (encode_candidates e cands))) \<le> MAX_VISIBLE_CUSTOMERS"
  by (simp add: encode_candidates_def Let_def)

lemma get_obs_invariant:
  "length (visible_customer_ids e) \<le> MAX_VISIBLE_CUSTOMERS \<Longrightarrow>
   length (visible_customer_ids (fst (get_obs e))) \<le> MAX_VISIBLE_CUSTOMERS"
  by (simp add: get_obs_def encode_candidates_invariant split: sum.split)

section \<open>Claims\<close>

subsection \<open>C1: a task absent from the server's mapping\<close>

text \<open>
  C1 says that a waiting customer whose task is absent from the selected server's
  \<^verbatim>\<open>avg_service_time\<close> mapping is treated as not capable by the selector and the
  decoder, and that no input makes either raise. The code subscripts the mapping, so an
  absent task raises \<^verbatim>\<open>KeyError\<close> in both: in \<open>env_missing\<close> customer D waits with
  task 9, which the server does not list, and slot 1 of the visible table is D.
\<close>

theorem C1_counterexample:
  "get_candidate_customers env_missing = Inl KeyError
   \<and> get_customer_from_action env_missing (PyInt 1) = Inl KeyError"
  by (simp add: get_candidate_customers_def get_customer_from_action_def
        MAX_VISIBLE_CUSTOMERS_def env_missing_def cust_D_def
        env_ex_def cust_A_def cust_B_def cust_C_def srv_ex_def)

text \<open>
  C1 as amended: \<^verbatim>\<open>KeyError\<close> is the only fault of the selector and of the decoder,
  and it is raised exactly when a task that is looked up is absent from the mapping (for
  the selector: the task of some waiting customer; for the decoder: the task of the
  waiting customer in the chosen slot). A customer whose task the mapping holds with a
  value of zero or less is not capable: the selector leaves it out and the decoder never
  returns it.
\<close>

theorem C1_missing_task:
  "(get_candidate_customers e = Inl err \<longleftrightarrow>
      err = KeyError \<and> (\<exists>c \<in> set (map snd (customer_waiting e)).
         avg_service_time (current_working_server e) (task c) = None))
   \<and> (get_customer_from_action e action = Inl err \<longleftrightarrow>
      err = KeyError \<and> (\<exists>a c. int_of_action action = Some a \<and> 0 \<le> a \<and> a < int MAX_VISIBLE_CUSTOMERS
         \<and> a < int (length (visible_customer_ids e))
         \<and> map_of (customer_waiting e) (visible_customer_ids e ! nat a) = Some c
         \<and> avg_service_time (current_working_server e) (task c) = None))
   \<and> (\<forall>c t r. avg_service_time (current_working_server e) (task c) = Some t \<and> t \<le> 0 \<longrightarrow>
         (get_candidate_customers e = Inr r \<longrightarrow> c \<notin> set r)
         \<and> get_customer_from_action e action \<noteq> Inr (Some c))"
proof -
  have 1: "get_candidate_customers e = Inl err \<longleftrightarrow>
      err = KeyError \<and> (\<exists>c \<in> set (map snd (customer_waiting e)).
         avg_service_time (current_working_server e) (task c) = None)"
    by (auto simp add: get_candidate_customers_cases)
  have 2: "get_customer_from_action e action = Inl err \<longleftrightarrow>
      err = KeyError \<and> (\<exists>a c. int_of_action action = Some a \<and> 0 \<le> a \<and> a < int MAX_VISIBLE_CUSTOMERS
         \<and> a < int (length (visible_customer_ids e))
         \<and> map_of (customer_waiting e) (visible_customer_ids e ! nat a) = Some c
         \<and> avg_service_time (current_working_server e) (task c) = None)"
    by (auto simp add: get_customer_from_action_def Let_def split: option.split)
  have 3: "\<forall>c t r. avg_service_time (current_working_server e) (task c) = Some t \<and> t \<le> 0 \<longrightarrow>
         (get_candidate_customers e = Inr r \<longrightarrow> c \<notin> set r)
         \<and> get_customer_from_action e action \<noteq> Inr (Some c)"
    by (auto simp add: get_candidate_customers_cases get_customer_from_action_def Let_def
          split: option.split if_splits)
  from 1 2 3 show ?thesis by blast
qed

theorem C1_witness:
  "avg_service_time (current_working_server env_ex) (task cust_C) = Some 0
   \<and> get_candidate_customers env_ex = Inr [cust_A, cust_B]
   \<and> cust_C \<notin> set [cust_A, cust_B]
   \<and> get_candidate_customers env_ex \<noteq> Inl KeyError
   \<and> get_customer_from_action (env_ex\<lparr>visible_customer_ids := [3]\<rparr>) (PyInt 0) = Inr None"
  using C1_missing_task [of env_ex KeyError "PyInt 0"]
    C1_missing_task [of "env_ex\<lparr>visible_customer_ids := [3]\<rparr>" KeyError "PyInt 0"]
  by (simp add: get_candidate_customers_def get_customer_from_action_def
        MAX_VISIBLE_CUSTOMERS_def less_eq_prod_def env_ex_def cust_A_def cust_B_def cust_C_def srv_ex_def)

subsection \<open>C2: the valid-action reward\<close>

text \<open>
  C2: for every customer (so for every customer that a valid decode returns) and current
  time \<open>t\<close>, the reward is \<open>2 + min ((t - arrival_time) / 15) 6\<close>, plus
  \<open>max 0 (4 - |t - appointment.time| / 5)\<close> when the customer has an appointment and
  nothing otherwise; arrival time 0 at time 30 without an appointment gives 4, and with
  an appointment at time 30 gives 8.
\<close>

theorem C2_valid_reward_formula:
  "get_valid_reward e c =
     2 + min ((system_time e - arrival_time c) / 15) 6 +
     (case appointments e (id_c c) of
        None \<Rightarrow> 0
      | Some appt \<Rightarrow> max 0 (4 - \<bar>system_time e - time appt\<bar> / 5))
   \<and> (arrival_time c = 0 \<and> system_time e = 30 \<and> appointments e (id_c c) = None
        \<longrightarrow> get_valid_reward e c = 4)
   \<and> (\<forall>appt. arrival_time c = 0 \<and> system_time e = 30 \<and> appointments e (id_c c) = Some appt
        \<and> time appt = 30 \<longrightarrow> get_valid_reward e c = 8)"
  by (simp add: get_valid_reward_closed)

theorem C2_witness:
  "get_customer_from_action env_ex (PyInt 0) = Inr (Some cust_A)
   \<and> arrival_time cust_A = 0 \<and> system_time env_ex = 30
   \<and> appointments env_ex (id_c cust_A) = None
   \<and> get_valid_reward env_ex cust_A = 4
   \<and> appointments env_appt (id_c cust_A) = Some appt_A \<and> time appt_A = 30
   \<and> get_valid_reward env_appt cust_A = 8"
  using C2_valid_reward_formula [of env_ex cust_A] C2_valid_reward_formula [of env_appt cust_A]
  by (simp add: get_customer_from_action_def MAX_VISIBLE_CUSTOMERS_def env_appt_def appt_A_def
        env_ex_def cust_A_def cust_B_def cust_C_def srv_ex_def)

subsection \<open>C3: decoding an action\<close>

text \<open>
  C3 says that an in-range action returns the customer of its slot if the customer still
  waits and the server's average service time for the task is strictly positive, and
  "no customer" otherwise. Where the task is absent from the mapping the service time is
  not strictly positive, yet the decoder does not return "no customer": it raises
  \<^verbatim>\<open>KeyError\<close>. In \<open>env_nokey\<close> the server's mapping is empty, slot 0 holds the id of
  customer A, and A still waits.
\<close>

theorem C3_counterexample:
  "int_of_action (PyInt 0) = Some 0
   \<and> (0::int) < int (length (visible_customer_ids env_nokey))
   \<and> map_of (customer_waiting env_nokey) (visible_customer_ids env_nokey ! 0) = Some cust_A
   \<and> avg_service_time (current_working_server env_nokey) (task cust_A) = None
   \<and> get_customer_from_action env_nokey (PyInt 0) = Inl KeyError
   \<and> get_customer_from_action env_nokey (PyInt 0) \<noteq> Inr None"
  by (simp add: get_customer_from_action_def MAX_VISIBLE_CUSTOMERS_def env_nokey_def
        env_ex_def cust_A_def cust_B_def cust_C_def srv_ex_def)

text \<open>
  C3 as amended: an action that is not of an integral type, is negative, is at least
  the capacity 20, or is at least the number of populated visible slots decodes to "no
  customer". An in-range action decodes to "no customer" when the customer of its slot
  no longer waits; when the customer waits and the server's mapping holds a service time
  \<open>t\<close> for its task, it decodes to that customer if \<open>0 < t\<close> and to "no customer"
  otherwise.
\<close>

theorem C3_action_decoder:
  "(int_of_action action = None \<longrightarrow> get_customer_from_action e action = Inr None)
   \<and> (\<forall>a. int_of_action action = Some a \<and>
          (a < 0 \<or> a \<ge> int MAX_VISIBLE_CUSTOMERS \<or> a \<ge> int (length (visible_customer_ids e)))
        \<longrightarrow> get_customer_from_action e action = Inr None)
   \<and> MAX_VISIBLE_CUSTOMERS = 20
   \<and> (\<forall>a. int_of_action action = Some a \<and> 0 \<le> a \<and> a < int MAX_VISIBLE_CUSTOMERS
          \<and> a < int (length (visible_customer_ids e))
        \<longrightarrow> (case map_of (customer_waiting e) (visible_customer_ids e ! nat a) of
               None \<Rightarrow> get_customer_from_action e action = Inr None
             | Some c \<Rightarrow>
                 (\<forall>t. avg_service_time (current_working_server e) (task c) = Some t \<longrightarrow>
                   get_customer_from_action e action = (if 0 < t then Inr (Some c) else Inr None))))"
  by (auto simp add: get_customer_from_action_def MAX_VISIBLE_CUSTOMERS_def Let_def
        split: option.split)

theorem C3_witness:
  "int_of_action (PyFloat 1) = None
   \<and> get_customer_from_action env_ex (PyFloat 1) = Inr None
   \<and> int_of_action (PyInt 2) = Some 2 \<and> 2 \<ge> int (length (visible_customer_ids env_ex))
   \<and> get_customer_from_action env_ex (PyInt 2) = Inr None
   \<and> int_of_action (PyBool True) = Some 1 \<and> 1 < int (length (visible_customer_ids env_ex))
   \<and> map_of (customer_waiting env_ex) (visible_customer_ids env_ex ! nat 1) = Some cust_B
   \<and> avg_service_time (current_working_server env_ex) (task cust_B) = Some 5
   \<and> get_customer_from_action env_ex (PyBool True) = Inr (Some cust_B)"
proof -
  have a: "get_customer_from_action env_ex (PyFloat 1) = Inr None"
    using C3_action_decoder [of "PyFloat 1" env_ex] by simp
  have b: "get_customer_from_action env_ex (PyInt 2) = Inr None"
    using C3_action_decoder [of "PyInt 2" env_ex] by (simp add: env_ex_def)
  have c: "get_customer_from_action env_ex (PyBool True) = Inr (Some cust_B)"
    using C3_action_decoder [of "PyBool True" env_ex]
    by (simp add: MAX_VISIBLE_CUSTOMERS_def env_ex_def cust_A_def cust_B_def cust_C_def srv_ex_def)
  from a b c show ?thesis
    by (simp add: env_ex_def cust_A_def cust_B_def cust_C_def srv_ex_def)
qed

subsection \<open>C4: no legal action\<close>

text \<open>
  C4 says that the policy returns HOLD for every mask that offers no legal action, the
  empty mask included. The first guard of \<^verbatim>\<open>_predict\<close> returns action 0 for an empty
  (or missing) mask, and action 0 is the first service slot, not HOLD.
\<close>

theorem C4_counterexample:
  "predict env_pol obs_ex info_empty = Inr 0 \<and> get_hold_action_number = 20"
  by (simp add: predict_def get_hold_action_number_def MAX_VISIBLE_CUSTOMERS_def info_empty_def)

text \<open>
  C4 as amended: for every non-empty action mask that offers no legal service action
  (no entry before the last one is \<^verbatim>\<open>True\<close>, whether or not the last one, HOLD, is),
  the policy returns HOLD, the last position of the mask, which is action 20 for a mask
  of length 21; for an empty or missing mask it returns action 0.
\<close>

theorem C4_no_legal_action:
  "(action_mask nfo = Some am \<and> am \<noteq> [] \<and> (\<forall>i < length am - 1. \<not> am ! i)
      \<longrightarrow> predict e obs nfo = Inr (length am - 1))
   \<and> (action_mask nfo = Some am \<and> length am = MAX_VISIBLE_CUSTOMERS + 1
        \<and> (\<forall>i < MAX_VISIBLE_CUSTOMERS. \<not> am ! i)
      \<longrightarrow> predict e obs nfo = Inr get_hold_action_number)
   \<and> (action_mask nfo = None \<or> action_mask nfo = Some [] \<longrightarrow> predict e obs nfo = Inr 0)"
proof (intro conjI impI)
  assume "action_mask nfo = Some am \<and> am \<noteq> [] \<and> (\<forall>i < length am - 1. \<not> am ! i)"
  then show "predict e obs nfo = Inr (length am - 1)"
    by (simp add: predict_def service_actions_empty_iff)
next
  assume h: "action_mask nfo = Some am \<and> length am = MAX_VISIBLE_CUSTOMERS + 1
        \<and> (\<forall>i < MAX_VISIBLE_CUSTOMERS. \<not> am ! i)"
  then have "am \<noteq> []" by auto
  with h show "predict e obs nfo = Inr get_hold_action_number"
    by (simp add: predict_def service_actions_empty_iff get_hold_action_number_def)
next
  assume "action_mask nfo = None \<or> action_mask nfo = Some []"
  then show "predict e obs nfo = Inr 0"
    by (auto simp add: predict_def)
qed

theorem C4_witness:
  "action_mask info_hold = Some mask_hold \<and> length mask_hold = MAX_VISIBLE_CUSTOMERS + 1
   \<and> list_all (\<lambda>b. \<not> b) (take MAX_VISIBLE_CUSTOMERS mask_hold)
   \<and> predict env_pol obs_ex info_hold = Inr 20
   \<and> action_mask info_empty = Some []
   \<and> predict env_pol obs_ex info_empty = Inr 0"
proof -
  have h: "action_mask info_hold = Some mask_hold \<and> length mask_hold = MAX_VISIBLE_CUSTOMERS + 1
      \<and> (\<forall>i < MAX_VISIBLE_CUSTOMERS. \<not> mask_hold ! i)"
    by (simp add: info_hold_def mask_hold_def MAX_VISIBLE_CUSTOMERS_def nth_append)
  have k: "action_mask info_empty = None \<or> action_mask info_empty = Some []"
    by (simp add: info_empty_def)
  from C4_no_legal_action [of info_hold mask_hold env_pol obs_ex] h
  have a: "predict env_pol obs_ex info_hold = Inr 20"
    by (simp add: get_hold_action_number_def MAX_VISIBLE_CUSTOMERS_def)
  from C4_no_legal_action [of info_empty "[]" env_pol obs_ex] k
  have b: "predict env_pol obs_ex info_empty = Inr 0"
    by simp
  from a b show ?thesis
    by (simp add: info_hold_def info_empty_def mask_hold_def MAX_VISIBLE_CUSTOMERS_def
          list_all_iff)
qed

subsection \<open>C5: the action mask\<close>

text \<open>
  C5: for a visible-slot table with \<open>n\<close> entries (\<open>n\<close> is at most the capacity: the
  table is empty at first and \<^verbatim>\<open>_get_obs\<close> stores at most 20 ids, see
  \<open>encode_candidates_invariant\<close>), the mask has length 21, is \<^verbatim>\<open>True\<close> at the
  positions below \<open>n\<close>, \<^verbatim>\<open>False\<close> at the other service slots, \<^verbatim>\<open>True\<close> at the HOLD
  position 20, and \<^verbatim>\<open>sum(mask) - 1\<close> is \<open>n\<close>.
\<close>

theorem C5_action_mask:
  assumes "length (visible_customer_ids e) \<le> MAX_VISIBLE_CUSTOMERS"
  shows "length (action_masks e) = MAX_VISIBLE_CUSTOMERS + 1
    \<and> MAX_VISIBLE_CUSTOMERS + 1 = 21
    \<and> (\<forall>i < length (visible_customer_ids e). action_masks e ! i)
    \<and> (\<forall>i. length (visible_customer_ids e) \<le> i \<and> i < MAX_VISIBLE_CUSTOMERS \<longrightarrow> \<not> action_masks e ! i)
    \<and> get_hold_action_number = 20
    \<and> action_masks e ! get_hold_action_number
    \<and> sum_mask (action_masks e) - 1 = int (length (visible_customer_ids e))"
proof -
  let ?n = "length (visible_customer_ids e)"
  from assms have m: "action_masks e =
      replicate ?n True @ replicate (MAX_VISIBLE_CUSTOMERS - ?n) False @ [True]"
    by (simp add: action_masks_eq min_absorb1)
  have 1: "length (action_masks e) = MAX_VISIBLE_CUSTOMERS + 1"
    using assms by (simp add: m)
  have 2: "MAX_VISIBLE_CUSTOMERS + 1 = 21" by (simp add: MAX_VISIBLE_CUSTOMERS_def)
  have 3: "\<forall>i < ?n. action_masks e ! i"
    by (simp add: m nth_append)
  have 4: "\<forall>i. ?n \<le> i \<and> i < MAX_VISIBLE_CUSTOMERS \<longrightarrow> \<not> action_masks e ! i"
    by (auto simp add: m nth_append)
  have 5: "get_hold_action_number = 20"
    by (simp add: get_hold_action_number_def MAX_VISIBLE_CUSTOMERS_def)
  have 6: "action_masks e ! get_hold_action_number"
    using assms by (simp add: m nth_append get_hold_action_number_def)
  have 7: "sum_mask (action_masks e) - 1 = int ?n"
    by (simp add: m sum_mask_append sum_mask_replicate sum_mask_single)
  from 1 2 3 4 5 6 7 show ?thesis by blast
qed

theorem C5_witness:
  "length (visible_customer_ids env_ex) \<le> MAX_VISIBLE_CUSTOMERS
   \<and> length (action_masks env_ex) = 21
   \<and> action_masks env_ex ! 0 \<and> action_masks env_ex ! 1
   \<and> \<not> action_masks env_ex ! 2 \<and> \<not> action_masks env_ex ! 19
   \<and> action_masks env_ex ! 20
   \<and> sum_mask (action_masks env_ex) - 1 = 2"
proof -
  have h: "length (visible_customer_ids env_ex) \<le> MAX_VISIBLE_CUSTOMERS"
    by (simp add: env_ex_def MAX_VISIBLE_CUSTOMERS_def)
  have n: "length (visible_customer_ids env_ex) = 2"
    by (simp add: env_ex_def)
  from C5_action_mask [OF h] h show ?thesis
    unfolding n by (simp add: MAX_VISIBLE_CUSTOMERS_def)
qed

subsection \<open>C6: the observation\<close>

text \<open>
  C6: for every ordered candidate list of any length, the encoder produces a vector of
  length exactly 20 whose first \<open>min (length, 20)\<close> entries are the candidates' ids in
  order and whose remaining entries are \<open>-1\<close>, and it stores those same ids as the
  visible-slot table; a longer list is truncated without an error. The ids are those
  that the observation can hold: the observation space is declared with the bounds
  \<open>-1\<close> and 10000 and the type \<^verbatim>\<open>int32\<close>, and the statement covers every id in the
  range of \<^verbatim>\<open>int32\<close>.
\<close>

theorem C6_observation_encoder:
  assumes "\<forall>c \<in> set (take MAX_VISIBLE_CUSTOMERS cands). - (2 ^ 31) \<le> id_c c \<and> id_c c < 2 ^ 31"
  shows "\<exists>obs. encode_candidates e cands =
           (e\<lparr>visible_customer_ids := map id_c (take MAX_VISIBLE_CUSTOMERS cands)\<rparr>, Inr obs)
     \<and> length obs = MAX_VISIBLE_CUSTOMERS \<and> MAX_VISIBLE_CUSTOMERS = 20
     \<and> (\<forall>i < min (length cands) MAX_VISIBLE_CUSTOMERS. obs ! i = id_c (cands ! i))
     \<and> (\<forall>i. min (length cands) MAX_VISIBLE_CUSTOMERS \<le> i \<and> i < MAX_VISIBLE_CUSTOMERS \<longrightarrow> obs ! i = - 1)
     \<and> visible_customer_ids (fst (encode_candidates e cands)) =
         take (min (length cands) MAX_VISIBLE_CUSTOMERS) obs"
proof -
  let ?vis = "map id_c (take MAX_VISIBLE_CUSTOMERS cands)"
  let ?obs = "?vis @ replicate (MAX_VISIBLE_CUSTOMERS - length ?vis) INVALID_CUSTOMER_ID"
  from assms have "\<forall>x \<in> set ?obs. - (2 ^ 31) \<le> x \<and> x < 2 ^ 31"
    by (auto simp add: INVALID_CUSTOMER_ID_def)
  then have "np_array_int32 ?obs = Inr ?obs" by (rule np_array_int32_Inr)
  then have enc: "encode_candidates e cands = (e\<lparr>visible_customer_ids := ?vis\<rparr>, Inr ?obs)"
    by (simp add: encode_candidates_def Let_def)
  have len: "length ?obs = MAX_VISIBLE_CUSTOMERS" by simp
  have c20: "MAX_VISIBLE_CUSTOMERS = 20" by (simp add: MAX_VISIBLE_CUSTOMERS_def)
  have ids: "\<forall>i < min (length cands) MAX_VISIBLE_CUSTOMERS. ?obs ! i = id_c (cands ! i)"
    by (simp add: nth_append)
  have pad: "\<forall>i. min (length cands) MAX_VISIBLE_CUSTOMERS \<le> i \<and> i < MAX_VISIBLE_CUSTOMERS
               \<longrightarrow> ?obs ! i = - 1"
    by (auto simp add: nth_append INVALID_CUSTOMER_ID_def)
  have vis: "visible_customer_ids (fst (encode_candidates e cands)) =
      take (min (length cands) MAX_VISIBLE_CUSTOMERS) ?obs"
    by (simp add: enc)
  from enc len c20 ids pad vis show ?thesis by blast
qed

theorem C6_witness:
  "- (2 ^ 31) \<le> id_c cust_A \<and> id_c cust_A < 2 ^ 31
   \<and> - (2 ^ 31) \<le> id_c cust_B \<and> id_c cust_B < 2 ^ 31
   \<and> encode_candidates env_ex [cust_A, cust_B] =
       (env_ex\<lparr>visible_customer_ids := [1, 2]\<rparr>, Inr ([1, 2] @ replicate 18 (- 1)))
   \<and> length ([1, 2] @ replicate 18 (- 1 :: int)) = 20
   \<and> length (replicate 21 cust_B) = 21
   \<and> encode_candidates env_ex (replicate 21 cust_B) =
       (env_ex\<lparr>visible_customer_ids := replicate 20 2\<rparr>, Inr (replicate 20 2))"
proof -
  have h: "\<forall>c \<in> set (take MAX_VISIBLE_CUSTOMERS [cust_A, cust_B]).
      - (2 ^ 31) \<le> id_c c \<and> id_c c < 2 ^ 31"
    by (simp add: MAX_VISIBLE_CUSTOMERS_def cust_A_def cust_B_def)
  have k: "\<forall>c \<in> set (take MAX_VISIBLE_CUSTOMERS (replicate 21 cust_B)).
      - (2 ^ 31) \<le> id_c c \<and> id_c c < 2 ^ 31"
    by (simp add: MAX_VISIBLE_CUSTOMERS_def cust_B_def)
  have a: "encode_candidates env_ex [cust_A, cust_B] =
       (env_ex\<lparr>visible_customer_ids := [1, 2]\<rparr>, Inr ([1, 2] @ replicate 18 (- 1)))"
    using C6_observation_encoder [OF h, of env_ex]
    by (simp add: encode_candidates_def np_array_int32_def list_all_iff Let_def
          MAX_VISIBLE_CUSTOMERS_def INVALID_CUSTOMER_ID_def cust_A_def cust_B_def)
  have b: "encode_candidates env_ex (replicate 21 cust_B) =
       (env_ex\<lparr>visible_customer_ids := replicate 20 2\<rparr>, Inr (replicate 20 2))"
    using C6_observation_encoder [OF k, of env_ex]
    by (simp add: encode_candidates_def np_array_int32_def list_all_iff Let_def
          MAX_VISIBLE_CUSTOMERS_def INVALID_CUSTOMER_ID_def cust_B_def)
  from a b show ?thesis by (simp add: cust_A_def cust_B_def)
qed

subsection \<open>C7: the candidate selector\<close>

text \<open>
  C7 says that the selector returns the ordered candidates for every waiting set and
  selected server. With a waiting customer whose task the server's mapping does not
  list, it returns no list: it raises \<^verbatim>\<open>KeyError\<close>.
\<close>

theorem C7_counterexample:
  "get_candidate_customers env_nokey = Inl KeyError"
  by (simp add: get_candidate_customers_def env_nokey_def env_ex_def cust_A_def cust_B_def cust_C_def srv_ex_def)

text \<open>
  C7 as amended: for every waiting set and selected server whose mapping has a key for
  the task of each waiting customer, the selector returns exactly the waiting customers
  whose task the server serves with a strictly positive average service time, sorted
  ascending by arrival time with ties broken by ascending customer id; an empty waiting
  set yields the empty list. The selector is a function of the state that it reads and
  does not change, so a second run on the same state returns the same list.
\<close>

theorem C7_candidate_selector:
  assumes "\<forall>c \<in> set (map snd (customer_waiting e)).
             task c \<in> dom (avg_service_time (current_working_server e))"
  shows "\<exists>r. get_candidate_customers e = Inr r
     \<and> mset r = mset (filter (\<lambda>c. \<exists>t. avg_service_time (current_working_server e) (task c) = Some t \<and> 0 < t)
                        (map snd (customer_waiting e)))
     \<and> sorted_wrt (\<lambda>a b. arrival_time a < arrival_time b \<or>
                          (arrival_time a = arrival_time b \<and> id_c a \<le> id_c b)) r
     \<and> (customer_waiting e = [] \<longrightarrow> r = [])"
proof -
  from assms have "\<forall>c \<in> set (map snd (customer_waiting e)).
      avg_service_time (current_working_server e) (task c) \<noteq> None"
    by (auto simp add: dom_def)
  from get_candidate_customers_Inr [OF this] show ?thesis
    by (simp add: sorted_by_arrival_then_id)
qed

theorem C7_witness:
  "map snd (customer_waiting env_ex) = [cust_B, cust_C, cust_A]
   \<and> task cust_B \<in> dom (avg_service_time (current_working_server env_ex))
   \<and> task cust_C \<in> dom (avg_service_time (current_working_server env_ex))
   \<and> task cust_A \<in> dom (avg_service_time (current_working_server env_ex))
   \<and> get_candidate_customers env_ex = Inr [cust_A, cust_B]"
proof -
  have h: "\<forall>c \<in> set (map snd (customer_waiting env_ex)).
      task c \<in> dom (avg_service_time (current_working_server env_ex))"
    by (simp add: env_ex_def cust_A_def cust_B_def cust_C_def srv_ex_def)
  from C7_candidate_selector [OF h] h show ?thesis
    by (simp add: get_candidate_customers_def less_eq_prod_def 
          env_ex_def cust_A_def cust_B_def cust_C_def srv_ex_def)
qed

subsection \<open>C8: the heuristic score\<close>

text \<open>
  C8: the score of a customer is the waiting time, plus, with an appointment,
  \<open>max 0 (120 - 4 |t - appointment.time|)\<close> less the early-arrival penalty
  \<open>2 (appointment.time - t - 30)\<close> when \<open>t < appointment.time - 30\<close>, less
  \<open>id / 1000000\<close>. An action is skipped exactly when its id in the observation is
  negative or absent from the waiting set. With a legal service action, each one a
  position of the observation, the policy returns HOLD (the last position of the mask)
  if all are skipped, and otherwise a service action of maximal score (the first one,
  among several of maximal score). In the example, with ids within the bounds 0 and
  10000 of the observation space, the policy picks B, in slot 1.
\<close>

theorem C8_heuristic_policy:
  "score_customer st ap k c =
     (st - arrival_time c)
     + (case ap k of
          None \<Rightarrow> 0
        | Some appt \<Rightarrow>
            max 0 (120 - 4 * \<bar>st - time appt\<bar>)
            - (if st < time appt - 30 then 2 * (time appt - st - 30) else 0))
     - of_int (id_c c) * (1 / 1000000)
   \<and> (action_score st w ap obs a = None \<longleftrightarrow> obs ! a < 0 \<or> map_of w (obs ! a) = None)
   \<and> (0 \<le> obs ! a \<and> map_of w (obs ! a) = Some c
        \<longrightarrow> action_score st w ap obs a = Some (score_customer st ap (obs ! a) c))
   \<and> set (service_actions am) = {i. i < length am - 1 \<and> am ! i}
   \<and> (action_mask nfo = Some am \<and> service_actions am \<noteq> []
        \<and> (\<forall>x \<in> set (service_actions am). x < length obs)
        \<and> st = (case info_system_time nfo of None \<Rightarrow> 0 | Some t \<Rightarrow> t)
      \<longrightarrow> (\<exists>r. predict e obs nfo = Inr r \<and>
            ((\<forall>x \<in> set (service_actions am).
                 action_score st (customer_waiting e) (appointments e) obs x = None)
               \<longrightarrow> r = length am - 1) \<and>
            ((\<exists>x \<in> set (service_actions am).
                 action_score st (customer_waiting e) (appointments e) obs x \<noteq> None)
               \<longrightarrow> r \<in> set (service_actions am) \<and>
                 (\<exists>s. action_score st (customer_waiting e) (appointments e) obs r = Some s \<and>
                   (\<forall>x \<in> set (service_actions am). \<forall>s'.
                      action_score st (customer_waiting e) (appointments e) obs x = Some s'
                      \<longrightarrow> s' \<le> s \<and> (x < r \<longrightarrow> s' < s))))))
   \<and> (0 \<le> ia \<and> ia \<le> 10000 \<and> 0 \<le> ib \<and> ib \<le> 10000
        \<and> map_of (customer_waiting e) ia = Some A \<and> id_c A = ia \<and> arrival_time A = 0
        \<and> appointments e ia = None
        \<and> map_of (customer_waiting e) ib = Some B \<and> id_c B = ib \<and> arrival_time B = 10
        \<and> appointments e ib = Some apptB \<and> time apptB = 50
        \<and> info_system_time nfo = Some 50 \<and> action_mask nfo = Some mask_two
        \<and> obs = [ia, ib] @ replicate 18 (- 1)
      \<longrightarrow> predict e obs nfo = Inr 1)"
proof (intro conjI impI)
  show "score_customer st ap k c =
     (st - arrival_time c)
     + (case ap k of
          None \<Rightarrow> 0
        | Some appt \<Rightarrow>
            max 0 (120 - 4 * \<bar>st - time appt\<bar>)
            - (if st < time appt - 30 then 2 * (time appt - st - 30) else 0))
     - of_int (id_c c) * (1 / 1000000)"
    by (rule score_customer_closed)
next
  show "action_score st w ap obs a = None \<longleftrightarrow> obs ! a < 0 \<or> map_of w (obs ! a) = None"
    by (rule action_score_None_iff)
next
  assume "0 \<le> obs ! a \<and> map_of w (obs ! a) = Some c"
  then show "action_score st w ap obs a = Some (score_customer st ap (obs ! a) c)"
    by (simp add: action_score_def resolve_customer_def Let_def)
next
  show "set (service_actions am) = {i. i < length am - 1 \<and> am ! i}"
    by (rule set_service_actions)
next
  assume "action_mask nfo = Some am \<and> service_actions am \<noteq> []
        \<and> (\<forall>x \<in> set (service_actions am). x < length obs)
        \<and> st = (case info_system_time nfo of None \<Rightarrow> 0 | Some t \<Rightarrow> t)"
  then have 1: "action_mask nfo = Some am" and 2: "service_actions am \<noteq> []"
    and 3: "\<forall>x \<in> set (service_actions am). x < length obs"
    and 4: "st = (case info_system_time nfo of None \<Rightarrow> 0 | Some t \<Rightarrow> t)"
    by simp_all
  show "\<exists>r. predict e obs nfo = Inr r \<and>
            ((\<forall>x \<in> set (service_actions am).
                 action_score st (customer_waiting e) (appointments e) obs x = None)
               \<longrightarrow> r = length am - 1) \<and>
            ((\<exists>x \<in> set (service_actions am).
                 action_score st (customer_waiting e) (appointments e) obs x \<noteq> None)
               \<longrightarrow> r \<in> set (service_actions am) \<and>
                 (\<exists>s. action_score st (customer_waiting e) (appointments e) obs r = Some s \<and>
                   (\<forall>x \<in> set (service_actions am). \<forall>s'.
                      action_score st (customer_waiting e) (appointments e) obs x = Some s'
                      \<longrightarrow> s' \<le> s \<and> (x < r \<longrightarrow> s' < s))))"
    by (rule predict_max [OF 1 2 3 4])
next
  assume "0 \<le> ia \<and> ia \<le> 10000 \<and> 0 \<le> ib \<and> ib \<le> 10000
        \<and> map_of (customer_waiting e) ia = Some A \<and> id_c A = ia \<and> arrival_time A = 0
        \<and> appointments e ia = None
        \<and> map_of (customer_waiting e) ib = Some B \<and> id_c B = ib \<and> arrival_time B = 10
        \<and> appointments e ib = Some apptB \<and> time apptB = 50
        \<and> info_system_time nfo = Some 50 \<and> action_mask nfo = Some mask_two
        \<and> obs = [ia, ib] @ replicate 18 (- 1)"
  then show "predict e obs nfo = Inr 1"
    by (intro predict_example [of ia ib e A B apptB nfo obs]) simp_all
qed

theorem C8_witness:
  "map_of (customer_waiting env_pol) 1 = Some cust_A \<and> arrival_time cust_A = 0
   \<and> appointments env_pol 1 = None
   \<and> map_of (customer_waiting env_pol) 2 = Some cust_B \<and> arrival_time cust_B = 10
   \<and> appointments env_pol 2 = Some appt_B \<and> time appt_B = 50
   \<and> info_system_time info_pol = Some 50 \<and> action_mask info_pol = Some mask_two
   \<and> obs_ex = [1, 2] @ replicate 18 (- 1)
   \<and> service_actions mask_two = [0, 1]
   \<and> action_score 50 (customer_waiting env_pol) (appointments env_pol) obs_ex 0
       = Some (50 - 1 / 1000000)
   \<and> action_score 50 (customer_waiting env_pol) (appointments env_pol) obs_ex 1
       = Some (160 - 2 / 1000000)
   \<and> predict env_pol obs_ex info_pol = Inr 1"
proof -
  have h: "map_of (customer_waiting env_pol) 1 = Some cust_A \<and> arrival_time cust_A = 0
      \<and> appointments env_pol 1 = None
      \<and> map_of (customer_waiting env_pol) 2 = Some cust_B \<and> arrival_time cust_B = 10
      \<and> appointments env_pol 2 = Some appt_B \<and> time appt_B = 50
      \<and> info_system_time info_pol = Some 50 \<and> action_mask info_pol = Some mask_two
      \<and> obs_ex = [1, 2] @ replicate 18 (- 1)"
    by (simp add: env_pol_def cust_A_def cust_B_def appt_B_def srv_ex_def obs_ex_def info_pol_def)
  have i: "id_c cust_A = 1" "id_c cust_B = 2" by (simp_all add: cust_A_def cust_B_def)
  from C8_heuristic_policy [where e = env_pol and obs = obs_ex and nfo = info_pol
      and ia = 1 and ib = 2 and A = cust_A and B = cust_B and apptB = appt_B] h i
  have p: "predict env_pol obs_ex info_pol = Inr 1"
    by simp
  have s0: "action_score 50 (customer_waiting env_pol) (appointments env_pol) obs_ex 0
       = Some (50 - 1 / 1000000)"
    by (simp add: action_score_def resolve_customer_def score_customer_def 
          env_pol_def cust_A_def cust_B_def appt_B_def obs_ex_def)
  have s1: "action_score 50 (customer_waiting env_pol) (appointments env_pol) obs_ex 1
       = Some (160 - 2 / 1000000)"
    by (simp add: action_score_def resolve_customer_def score_customer_def 
          env_pol_def cust_A_def cust_B_def appt_B_def obs_ex_def)
  from h p s0 s1 service_actions_mask_two show ?thesis by simp
qed

subsection \<open>C9: the reward grows with the waiting time\<close>

text \<open>
  C9: for two waiting times \<open>w1 \<le> w2\<close> with \<open>w2 / 15\<close> at or below the cap 6 and with
  the same appointment term, the reward at \<open>w1\<close> is at most the reward at \<open>w2\<close>. The
  two waiting times are those of any two customers in any two states: of one customer
  at two current times, its arrival time being fixed, or of two customers at one time.
\<close>

theorem C9_reward_monotone:
  assumes "system_time e1 - arrival_time c1 \<le> system_time e2 - arrival_time c2"
    and "(system_time e2 - arrival_time c2) / 15 \<le> 6"
    and "(case appointments e1 (id_c c1) of
            None \<Rightarrow> 0
          | Some appt \<Rightarrow> max 0 (4 - \<bar>system_time e1 - time appt\<bar> / 5)) =
         (case appointments e2 (id_c c2) of
            None \<Rightarrow> 0
          | Some appt \<Rightarrow> max 0 (4 - \<bar>system_time e2 - time appt\<bar> / 5))"
  shows "get_valid_reward e1 c1 \<le> get_valid_reward e2 c2"
  using assms by (simp add: get_valid_reward_closed)

theorem C9_witness:
  "system_time env_early - arrival_time cust_A \<le> system_time env_late - arrival_time cust_A
   \<and> (system_time env_late - arrival_time cust_A) / 15 \<le> 6
   \<and> appointments env_early (id_c cust_A) = Some appt_mid
   \<and> appointments env_late (id_c cust_A) = Some appt_mid
   \<and> max 0 (4 - \<bar>system_time env_early - time appt_mid\<bar> / 5) = (1::real)
   \<and> max 0 (4 - \<bar>system_time env_late - time appt_mid\<bar> / 5) = (1::real)
   \<and> get_valid_reward env_early cust_A = 5
   \<and> get_valid_reward env_late cust_A = 7
   \<and> get_valid_reward env_early cust_A \<le> get_valid_reward env_late cust_A"
proof -
  have h1: "system_time env_early - arrival_time cust_A
      \<le> system_time env_late - arrival_time cust_A"
    by (simp add: env_late_def env_early_def env_ex_def)
  have h2: "(system_time env_late - arrival_time cust_A) / 15 \<le> 6"
    by (simp add: env_late_def cust_A_def)
  have h3: "(case appointments env_early (id_c cust_A) of
            None \<Rightarrow> 0
          | Some appt \<Rightarrow> max 0 (4 - \<bar>system_time env_early - time appt\<bar> / 5)) =
         (case appointments env_late (id_c cust_A) of
            None \<Rightarrow> 0
          | Some appt \<Rightarrow> max 0 (4 - \<bar>system_time env_late - time appt\<bar> / 5))"
    by (simp add: env_late_def env_early_def env_ex_def appt_mid_def cust_A_def)
  from C9_reward_monotone [OF h1 h2 h3] h1 h2 show ?thesis
    by (simp add: get_valid_reward_def env_late_def env_early_def env_ex_def appt_mid_def
          cust_A_def)
qed

subsection \<open>C10: the range of the reward\<close>

text \<open>
  C10: for a customer that arrived at or before the current time the reward lies in the
  closed interval from 2 to 12; when the current time precedes the arrival time the
  reward can be below 2, since the waiting term is not clamped at zero.
\<close>

theorem C10_reward_bounds:
  "(arrival_time c \<le> system_time e \<longrightarrow> 2 \<le> get_valid_reward e c \<and> get_valid_reward e c \<le> 12)
   \<and> (\<exists>e' c'. system_time e' < arrival_time c' \<and> get_valid_reward e' c' < 2)"
proof (intro conjI impI)
  assume "arrival_time c \<le> system_time e"
  then show "2 \<le> get_valid_reward e c" 
    by (simp add: get_valid_reward_closed split: option.split)
  show "get_valid_reward e c \<le> 12"
  proof (cases "appointments e (id_c c)")
    case None
    have "min ((system_time e - arrival_time c) / 15) 6 \<le> (6::real)" by simp
    with None show ?thesis by (simp add: get_valid_reward_closed)
  next
    case (Some appt)
    have w: "min ((system_time e - arrival_time c) / 15) 6 \<le> (6::real)" by simp
    have a: "max 0 (4 - \<bar>system_time e - time appt\<bar> / 5) \<le> (4::real)" by simp
    from add_mono [OF w a] Some show ?thesis by (simp add: get_valid_reward_closed)
  qed
next
  have "system_time env_ex < arrival_time (cust_A\<lparr>arrival_time := 45\<rparr>) \<and>
        get_valid_reward env_ex (cust_A\<lparr>arrival_time := 45\<rparr>) < 2"
    by (simp add: get_valid_reward_closed env_ex_def cust_A_def)
  then show "\<exists>e' c'. system_time e' < arrival_time c' \<and> get_valid_reward e' c' < 2"
    by blast
qed

theorem C10_witness:
  "arrival_time cust_A \<le> system_time env_appt
   \<and> 2 \<le> get_valid_reward env_appt cust_A \<and> get_valid_reward env_appt cust_A \<le> 12
   \<and> system_time env_ex < arrival_time (cust_A\<lparr>arrival_time := 45\<rparr>)
   \<and> get_valid_reward env_ex (cust_A\<lparr>arrival_time := 45\<rparr>) = 1"
  using C10_reward_bounds [of cust_A env_appt]
  by (simp add: get_valid_reward_def env_appt_def appt_A_def
        env_ex_def cust_A_def cust_B_def cust_C_def srv_ex_def)

end
